theory Spec2Isabelle
  imports Main
begin

section \<open>Python values of the order book server\<close>

text \<open>
  The model follows \<^verbatim>\<open>microservices/python-server/main.py\<close>. A Python \<^verbatim>\<open>str\<close> is a
  \<^typ>\<open>string\<close> whose characters are read as code points below 256. Prints and sleeps
  change nothing that a handler returns and are left out.
\<close>

datatype json =
    JNull
  | JBool bool
  | JInt int
  | JFloat string
  | JStr string
  | JArr "json list"
  | JObj "(string \<times> json) list"

text \<open>
  The exceptions the handlers distinguish: FastAPI's \<^verbatim>\<open>HTTPException(status_code, detail)\<close>,
  \<^verbatim>\<open>requests.exceptions.RequestException\<close>, \<^verbatim>\<open>json.JSONDecodeError\<close>, and any other
  \<^verbatim>\<open>Exception\<close>, each with its message.
\<close>

datatype exn =
    HTTPException int string
  | RequestException string
  | JSONDecodeError string
  | OtherException string

definition digit_char :: "nat \<Rightarrow> char" where
  "digit_char d = ''0123456789'' ! d"

function string_of_nat :: "nat \<Rightarrow> string" where
  "string_of_nat n =
     (if n < 10 then [digit_char n] else string_of_nat (n div 10) @ [digit_char (n mod 10)])"
  by pat_completeness auto
termination
  by (relation "measure id") auto

declare string_of_nat.simps [simp del]

definition string_of_int :: "int \<Rightarrow> string" where
  "string_of_int i = (if i < 0 then CHR ''-'' # string_of_nat (nat (- i)) else string_of_nat (nat i))"

text \<open>
  \<^verbatim>\<open>str(e)\<close>. For an \<^verbatim>\<open>HTTPException\<close> it is Starlette's
  \<^verbatim>\<open>f"{self.status_code}: {self.detail}"\<close>.
\<close>

fun str_exn :: "exn \<Rightarrow> string" where
  "str_exn (HTTPException status_code detail) = string_of_int status_code @ '': '' @ detail"
| "str_exn (RequestException msg) = msg"
| "str_exn (JSONDecodeError msg) = msg"
| "str_exn (OtherException msg) = msg"

fun type_name :: "json \<Rightarrow> string" where
  "type_name JNull = ''NoneType''"
| "type_name (JBool b) = ''bool''"
| "type_name (JInt i) = ''int''"
| "type_name (JFloat f) = ''float''"
| "type_name (JStr s) = ''str''"
| "type_name (JArr xs) = ''list''"
| "type_name (JObj kvs) = ''dict''"

text \<open>
  \<^verbatim>\<open>d.get(key, default)\<close>: only a dict has the method; on any other decoded value the
  attribute lookup raises \<^verbatim>\<open>AttributeError\<close>.
\<close>

definition dict_get :: "json \<Rightarrow> string \<Rightarrow> json \<Rightarrow> exn + json" where
  "dict_get d key dflt =
     (case d of
        JObj kvs \<Rightarrow> Inr (case map_of kvs key of Some v \<Rightarrow> v | None \<Rightarrow> dflt)
      | _ \<Rightarrow> Inl (OtherException
                 ([CHR 0x27] @ type_name d @ [CHR 0x27] @ '' object has no attribute ''
                  @ [CHR 0x27] @ ''get'' @ [CHR 0x27])))"

subsection \<open>Text operations\<close>

definition LF :: char where
  "LF = CHR 0x0A"

definition CR :: char where
  "CR = CHR 0x0D"

text \<open>The characters \<^verbatim>\<open>str.strip()\<close> removes, among the code points below 256.\<close>

definition whitespace :: "char list" where
  "whitespace = [CHR 0x09, CHR 0x0A, CHR 0x0B, CHR 0x0C, CHR 0x0D, CHR 0x1C, CHR 0x1D,
                 CHR 0x1E, CHR 0x1F, CHR 0x20, CHR 0x85, CHR 0xA0]"

definition isspace :: "char \<Rightarrow> bool" where
  "isspace c = (c \<in> set whitespace)"

definition strip :: "string \<Rightarrow> string" where
  "strip s = rev (dropWhile isspace (rev (dropWhile isspace s)))"

text \<open>\<^verbatim>\<open>s.split('\n')\<close>: the pieces between line feeds; never an empty list.\<close>

fun split_nl :: "string \<Rightarrow> string list" where
  "split_nl [] = [[]]"
| "split_nl (c # cs) =
     (if c = LF then [] # split_nl cs
      else (case split_nl cs of [] \<Rightarrow> [[c]] | l # ls \<Rightarrow> (c # l) # ls))"

text \<open>
  Reading a file opened with \<^verbatim>\<open>open(path, "r")\<close>: universal newlines turn
  \<^verbatim>\<open>\r\n\<close> and a lone \<^verbatim>\<open>\r\<close> into \<^verbatim>\<open>\n\<close>, and \<^verbatim>\<open>readlines()\<close> cuts after every
  \<^verbatim>\<open>\n\<close>, keeping it.
\<close>

fun universal_newlines :: "string \<Rightarrow> string" where
  "universal_newlines [] = []"
| "universal_newlines [c] = (if c = CR then [LF] else [c])"
| "universal_newlines (c # d # cs) =
     (if c = CR \<and> d = LF then LF # universal_newlines cs
      else if c = CR then LF # universal_newlines (d # cs)
      else c # universal_newlines (d # cs))"

fun keepends :: "string \<Rightarrow> string list" where
  "keepends [] = []"
| "keepends (c # cs) =
     (if c = LF then [LF] # keepends cs
      else (case keepends cs of [] \<Rightarrow> [[c]] | l # ls \<Rightarrow> (c # l) # ls))"

definition readlines :: "string \<Rightarrow> string list" where
  "readlines content = keepends (universal_newlines content)"

subsection \<open>The line parser\<close>

text \<open>
  The loop shared by \<^verbatim>\<open>start_streaming\<close> (lines 124-130) and \<^verbatim>\<open>get_order_book\<close>
  (lines 164-170). \<open>loads\<close> stands for \<^verbatim>\<open>json.loads\<close>, which returns a value or raises.
  The loop skips a line on \<^verbatim>\<open>JSONDecodeError\<close> only; any other exception of the decoder
  leaves the loop. \<open>order_book_data\<close> is the list the loop appends to.
\<close>

type_synonym decoder = "string \<Rightarrow> exn + json"

fun parse_lines :: "decoder \<Rightarrow> json list \<Rightarrow> string list \<Rightarrow> exn + json list" where
  "parse_lines loads order_book_data [] = Inr order_book_data"
| "parse_lines loads order_book_data (line # rest) =
     (let line' = strip line in
      if line' \<noteq> [] then
        (case loads line' of
           Inr v \<Rightarrow> parse_lines loads (order_book_data @ [v]) rest
         | Inl (JSONDecodeError msg) \<Rightarrow> parse_lines loads order_book_data rest
         | Inl e \<Rightarrow> Inl e)
      else parse_lines loads order_book_data rest)"

text \<open>Lines 120-130 of \<^verbatim>\<open>start_streaming\<close>.\<close>

definition parse_order_book :: "decoder \<Rightarrow> string \<Rightarrow> exn + json list" where
  "parse_order_book loads text =
     (let order_book_text = strip text in
      if order_book_text \<noteq> [] then parse_lines loads [] (split_nl order_book_text)
      else Inr [])"

section \<open>The world outside the server\<close>

text \<open>
  A response of \<^verbatim>\<open>requests\<close>: its status code, its \<^verbatim>\<open>.text\<close> and what \<^verbatim>\<open>.json()\<close>
  does (returns a value or raises). A call returns a response or raises.
\<close>

record response =
  status_code :: int
  resp_text :: string
  resp_json :: "exn + json"

type_synonym reply = "exn + response"

text \<open>What a file holds: a text, or something whose reading raises.\<close>

datatype file_content = Text string | Unreadable exn

datatype request =
    PostSenderStartStreaming
  | PostReceiverStartProcessing
  | GetReceiverStats
  | GetReceiverOrderBook
  | GetSenderStatus
  | GetReceiverStatus

text \<open>
  What each call of the two services answers, and what the receiver writes to
  \<^verbatim>\<open>data/order_book_output.json\<close> when it is asked to process (lines 87-89 wait for it
  "to finish writing the order book file"): a content, or nothing.
\<close>

record world =
  post_sender_start_streaming :: reply
  post_receiver_start_processing :: reply
  get_receiver_stats :: reply
  get_receiver_order_book :: reply
  get_sender_status :: reply
  get_receiver_status :: reply
  receiver_writes :: "file_content option"

text \<open>
  The two files under \<^verbatim>\<open>data/\<close>: whether \<^verbatim>\<open>CLX5_mbo.dbn\<close> exists,
  \<^verbatim>\<open>order_book_output.json\<close> (absent, or its content), and what \<^verbatim>\<open>unlink()\<close> of that
  path raises, if anything (a directory, a directory without write permission).
\<close>

record fs =
  data_file :: bool
  output_file :: "file_content option"
  unlink_error :: "exn option"

datatype event = Unlinked | Requested request

section \<open>POST /api/start-streaming\<close>

record order_book_result =
  status :: string
  total_records :: nat
  data :: "json list"

record start_result = order_book_result +
  message :: string
  final_order_book :: json
  sender_stats :: json
  receiver_stats :: json

text \<open>Lines 56-62: the sender's answer.\<close>

definition sender_step :: "reply \<Rightarrow> exn + json" where
  "sender_step r =
     (case r of
        Inl e \<Rightarrow> Inl e
      | Inr sender_response \<Rightarrow>
          if status_code sender_response \<noteq> 200 then
            Inl (HTTPException 500 (''Sender microservice failed: '' @ resp_text sender_response))
          else
            (case resp_json sender_response of
               Inl e \<Rightarrow> Inl e
             | Inr sender_data \<Rightarrow>
                 (case dict_get sender_data ''message'' (JStr ''Unknown'') of
                    Inl e \<Rightarrow> Inl e
                  | Inr m \<Rightarrow> Inr sender_data)))"

text \<open>Lines 70-85: the receiver's answer; the inner \<^verbatim>\<open>except Exception\<close> wraps a failed call.\<close>

definition receiver_step :: "reply \<Rightarrow> exn + json" where
  "receiver_step r =
     (case r of
        Inl e \<Rightarrow> Inl (HTTPException 500 (''Receiver microservice failed: '' @ str_exn e))
      | Inr receiver_response \<Rightarrow>
          if status_code receiver_response \<noteq> 200 then
            Inl (HTTPException 500 (''Receiver microservice failed: '' @ resp_text receiver_response))
          else
            (case resp_json receiver_response of
               Inl e \<Rightarrow> Inl e
             | Inr receiver_data \<Rightarrow>
                 (case dict_get receiver_data ''message'' (JStr ''Unknown'') of
                    Inl e \<Rightarrow> Inl e
                  | Inr m \<Rightarrow> Inr receiver_data)))"

text \<open>Lines 93-103: the statistics; every exception is swallowed and \<open>receiver_data\<close> kept.\<close>

definition stats_step :: "reply \<Rightarrow> json \<Rightarrow> json" where
  "stats_step r receiver_data =
     (case r of
        Inl e \<Rightarrow> receiver_data
      | Inr stats_response \<Rightarrow>
          if status_code stats_response = 200 then
            (case resp_json stats_response of
               Inl e \<Rightarrow> receiver_data
             | Inr v \<Rightarrow> v)
          else receiver_data)"

text \<open>Lines 107-117: the order book text.\<close>

definition order_book_step :: "reply \<Rightarrow> exn + string" where
  "order_book_step r =
     (case r of
        Inl e \<Rightarrow> Inl (HTTPException 500 (''Failed to get order book: '' @ str_exn e))
      | Inr order_book_response \<Rightarrow>
          if status_code order_book_response \<noteq> 200 then
            Inl (HTTPException 500 (''Failed to get order book: '' @ resp_text order_book_response))
          else Inr (resp_text order_book_response))"

text \<open>Lines 132-143: the final state and the returned dict.\<close>

definition final_state :: "json list \<Rightarrow> json" where
  "final_state order_book_data = (if order_book_data \<noteq> [] then last order_book_data else JObj [])"

definition make_result :: "json \<Rightarrow> json \<Rightarrow> json list \<Rightarrow> start_result" where
  "make_result sender_data receiver_data order_book_data =
     \<lparr> status = ''success'',
       total_records = length order_book_data,
       data = order_book_data,
       message = ''Microservices completed successfully'',
       final_order_book = final_state order_book_data,
       sender_stats = sender_data,
       receiver_stats = receiver_data \<rparr>"

text \<open>Lines 52-146: the calls in order, with the requests made so far.\<close>

definition run_pipeline ::
  "decoder \<Rightarrow> world \<Rightarrow> (exn + start_result) \<times> request list" where
  "run_pipeline loads w =
     (case sender_step (post_sender_start_streaming w) of
        Inl e \<Rightarrow> (Inl e, [PostSenderStartStreaming])
      | Inr sender_data \<Rightarrow>
          (case receiver_step (post_receiver_start_processing w) of
             Inl e \<Rightarrow> (Inl e, [PostSenderStartStreaming, PostReceiverStartProcessing])
           | Inr receiver_data0 \<Rightarrow>
               (let receiver_data = stats_step (get_receiver_stats w) receiver_data0 in
                case order_book_step (get_receiver_order_book w) of
                  Inl e \<Rightarrow>
                    (Inl e, [PostSenderStartStreaming, PostReceiverStartProcessing,
                             GetReceiverStats, GetReceiverOrderBook])
                | Inr text \<Rightarrow>
                    (case parse_order_book loads text of
                       Inl e \<Rightarrow>
                         (Inl e, [PostSenderStartStreaming, PostReceiverStartProcessing,
                                  GetReceiverStats, GetReceiverOrderBook])
                     | Inr order_book_data \<Rightarrow>
                         (Inr (make_result sender_data receiver_data order_book_data),
                          [PostSenderStartStreaming, PostReceiverStartProcessing,
                           GetReceiverStats, GetReceiverOrderBook])))))"

text \<open>
  Lines 148-151: the two outer \<^verbatim>\<open>except\<close> clauses. An \<^verbatim>\<open>HTTPException\<close> raised in the
  \<^verbatim>\<open>try\<close> body is an \<^verbatim>\<open>Exception\<close> and is caught by the second clause.
\<close>

definition outer_except :: "exn + 'a \<Rightarrow> exn + 'a" where
  "outer_except r =
     (case r of
        Inr v \<Rightarrow> Inr v
      | Inl (RequestException msg) \<Rightarrow>
          Inl (HTTPException 500 (''Microservice communication failed: '' @ msg))
      | Inl e \<Rightarrow> Inl (HTTPException 500 (''Error: '' @ str_exn e)))"

text \<open>Lines 46-48: the old output file is removed if it exists; \<^verbatim>\<open>unlink()\<close> may raise.\<close>

definition remove_output :: "fs \<Rightarrow> exn + fs \<times> event list" where
  "remove_output f =
     (if output_file f \<noteq> None then
        (case unlink_error f of
           Some e \<Rightarrow> Inl e
         | None \<Rightarrow> Inr (f\<lparr>output_file := None\<rparr>, [Unlinked]))
      else Inr (f, []))"

text \<open>
  The handler: what it returns or raises, the files as its own operations leave them, and
  what it did, in order.
\<close>

definition start_streaming ::
  "decoder \<Rightarrow> world \<Rightarrow> fs \<Rightarrow> (exn + start_result) \<times> fs \<times> event list" where
  "start_streaming loads w f =
     (if \<not> data_file f then
        (outer_except (Inl (HTTPException 404 ''Data file not found'')), f, [])
      else
        (case remove_output f of
           Inl e \<Rightarrow> (outer_except (Inl e), f, [])
         | Inr (f', removed) \<Rightarrow>
             (case run_pipeline loads w of
                (r, requests) \<Rightarrow> (outer_except r, f', removed @ map Requested requests))))"

text \<open>
  The files once a run is over, with the receiver's own writing: the handler never reads the
  output file after line 48, so the receiver's file is simply there afterwards if the
  receiver was asked to process.
\<close>

definition files_after_run :: "world \<Rightarrow> fs \<Rightarrow> event list \<Rightarrow> fs" where
  "files_after_run w f events =
     (if Requested PostReceiverStartProcessing \<in> set events then
        (case receiver_writes w of
           None \<Rightarrow> f
         | Some content \<Rightarrow> f\<lparr>output_file := Some content\<rparr>)
      else f)"

section \<open>GET /api/order-book\<close>

definition get_order_book :: "decoder \<Rightarrow> fs \<Rightarrow> exn + order_book_result" where
  "get_order_book loads f =
     (case output_file f of
        None \<Rightarrow> Inl (HTTPException 404 ''No order book data available'')
      | Some (Unreadable e) \<Rightarrow>
          Inl (HTTPException 500 (''Error reading order book: '' @ str_exn e))
      | Some (Text content) \<Rightarrow>
          (case parse_lines loads [] (readlines content) of
             Inl e \<Rightarrow> Inl (HTTPException 500 (''Error reading order book: '' @ str_exn e))
           | Inr order_book_data \<Rightarrow>
               Inr \<lparr> status = ''success'',
                     total_records = length order_book_data,
                     data = order_book_data \<rparr>))"

section \<open>GET /api/microservices/status\<close>

text \<open>
  Lines 210-216 and 218-224, once per service: the entry starts as \<^verbatim>\<open>"unknown"\<close>, a 200
  makes it \<^verbatim>\<open>"ready"\<close>, the bare \<^verbatim>\<open>except\<close> makes it \<^verbatim>\<open>"not_running"\<close>.
\<close>

definition check_microservice :: "reply \<Rightarrow> string" where
  "check_microservice r =
     (case r of
        Inl e \<Rightarrow> ''not_running''
      | Inr resp \<Rightarrow> if status_code resp = 200 then ''ready'' else ''unknown'')"

record microservices_status =
  python_server_status :: string
  sender_microservice_status :: string
  receiver_microservice_status :: string
  data_file_exists :: bool
  output_file_exists :: bool

definition get_microservices_status :: "world \<Rightarrow> fs \<Rightarrow> exn + microservices_status" where
  "get_microservices_status w f =
     Inr \<lparr> python_server_status = ''ready'',
           sender_microservice_status = check_microservice (get_sender_status w),
           receiver_microservice_status = check_microservice (get_receiver_status w),
           data_file_exists = data_file f,
           output_file_exists = (output_file f \<noteq> None) \<rparr>"

text \<open>The HTTP status a client sees: 200 for a returned value, the exception's own code otherwise.\<close>

fun http_status :: "exn + 'a \<Rightarrow> int" where
  "http_status (Inr v) = 200"
| "http_status (Inl (HTTPException code detail)) = code"
| "http_status (Inl e) = 500"

section \<open>Notions for stating the properties\<close>

text \<open>\<^verbatim>\<open>"\n".join(ls)\<close>: a payload made of the lines \<open>ls\<close>.\<close>

fun join_nl :: "string list \<Rightarrow> string" where
  "join_nl [] = []"
| "join_nl [l] = l"
| "join_nl (l # m # ls) = l @ LF # join_nl (m # ls)"

text \<open>
  A line is valid when, stripped as the loop strips it, it is not blank and the decoder
  returns a value for it. It is malformed when it is blank or the decoder rejects it with
  \<^verbatim>\<open>JSONDecodeError\<close>. (A line on which the decoder raises anything else is neither.)
  \<open>decoded\<close> is the records of the valid lines, in the order of the lines.
\<close>

definition valid_line :: "decoder \<Rightarrow> string \<Rightarrow> bool" where
  "valid_line loads l =
     (strip l \<noteq> [] \<and> (case loads (strip l) of Inr v \<Rightarrow> True | Inl e \<Rightarrow> False))"

definition malformed_line :: "decoder \<Rightarrow> string \<Rightarrow> bool" where
  "malformed_line loads l =
     (strip l = [] \<or>
      (case loads (strip l) of Inl (JSONDecodeError msg) \<Rightarrow> True | Inl e \<Rightarrow> False | Inr v \<Rightarrow> False))"

definition decoded :: "decoder \<Rightarrow> string list \<Rightarrow> json list" where
  "decoded loads ls = map (\<lambda>l. projr (loads (strip l))) (filter (valid_line loads) ls)"

text \<open>
  The lines as the loop sees them, stripped and without the blank ones, and the loop on
  such lines.
\<close>

definition stripped :: "string list \<Rightarrow> string list" where
  "stripped ls = filter (\<lambda>l. l \<noteq> []) (map strip ls)"

fun feed :: "decoder \<Rightarrow> json list \<Rightarrow> string list \<Rightarrow> exn + json list" where
  "feed loads acc [] = Inr acc"
| "feed loads acc (l # ls) =
     (case loads l of
        Inr v \<Rightarrow> feed loads (acc @ [v]) ls
      | Inl (JSONDecodeError msg) \<Rightarrow> feed loads acc ls
      | Inl e \<Rightarrow> Inl e)"

text \<open>
  Concrete inputs: two order book lines, a line of 1200 opening brackets (on which
  \<^verbatim>\<open>json.loads\<close> raises \<^verbatim>\<open>RecursionError\<close>, not \<^verbatim>\<open>JSONDecodeError\<close>), a decoder that
  knows them and rejects every other line, and answers of the services.
\<close>

definition line_101 :: string where
  \<open>line_101 = ''{"bid":100,"ask":101}''\<close>

definition line_102 :: string where
  \<open>line_102 = ''{"bid":100,"ask":102}''\<close>

definition record_101 :: json where
  "record_101 = JObj [(''bid'', JInt 100), (''ask'', JInt 101)]"

definition record_102 :: json where
  "record_102 = JObj [(''bid'', JInt 100), (''ask'', JInt 102)]"

definition deep_line :: string where
  "deep_line = replicate 1200 (CHR ''['')"

definition example_loads :: decoder where
  "example_loads s =
     (if s = line_101 then Inr record_101
      else if s = line_102 then Inr record_102
      else if s = deep_line then Inl (OtherException ''maximum recursion depth exceeded'')
      else Inl (JSONDecodeError ''Expecting value''))"

definition ok_response :: "string \<Rightarrow> json \<Rightarrow> response" where
  "ok_response t j = \<lparr> status_code = 200, resp_text = t, resp_json = Inr j \<rparr>"

definition unavailable :: response where
  "unavailable = \<lparr> status_code = 503, resp_text = ''Service Unavailable'',
                   resp_json = Inl (RequestException ''Expecting value'') \<rparr>"

definition example_world :: world where
  "example_world =
     \<lparr> post_sender_start_streaming =
         Inr (ok_response ''{}'' (JObj [(''message'', JStr ''streaming started'')])),
       post_receiver_start_processing =
         Inr (ok_response ''{}'' (JObj [(''message'', JStr ''processing completed'')])),
       get_receiver_stats = Inr unavailable,
       get_receiver_order_book = Inr (ok_response (line_101 @ LF # line_102) JNull),
       get_sender_status = Inr (ok_response ''{}'' (JObj [])),
       get_receiver_status = Inr (ok_response ''{}'' (JObj [])),
       receiver_writes = None \<rparr>"

definition unreachable :: reply where
  "unreachable = Inl (RequestException ''Connection refused'')"

definition example_fs :: fs where
  "example_fs = \<lparr> data_file = True, output_file = Some (Text (line_101 @ [LF])),
                  unlink_error = None \<rparr>"

section \<open>Properties\<close>

subsection \<open>Helper facts\<close>

lemma string_of_int_404: "string_of_int 404 = ''404''"
  by code_simp

lemma string_of_int_500: "string_of_int 500 = ''500''"
  by code_simp

lemma isspace_LF: "isspace LF"
  by (simp add: isspace_def whitespace_def LF_def)

lemma strip_Cons_space: "isspace c \<Longrightarrow> strip (c # l) = strip l"
  by (simp add: strip_def)

lemma strip_snoc_space: "isspace c \<Longrightarrow> strip (l @ [c]) = strip l"
proof (cases "\<forall>x\<in>set l. isspace x")
  case True
  assume c: "isspace c"
  from True have "dropWhile isspace l = []"
    by (simp only: dropWhile_eq_Nil_conv)
  moreover from True c have "dropWhile isspace (l @ [c]) = []"
    by (simp only: dropWhile_eq_Nil_conv) simp
  ultimately show ?thesis by (simp only: strip_def)
next
  case False
  assume c: "isspace c"
  from False obtain x where "x \<in> set l" and "\<not> isspace x"
    by blast
  then have "dropWhile isspace (l @ [c]) = dropWhile isspace l @ [c]"
    by (rule dropWhile_append1)
  with c show ?thesis by (simp add: strip_def)
qed

lemma strip_unchanged:
  assumes "s \<noteq> []" and "\<not> isspace (hd s)" and "\<not> isspace (last s)"
  shows "strip s = s"
proof -
  from assms have "dropWhile isspace s = s"
    by (cases s) simp_all
  moreover from assms have "dropWhile isspace (rev s) = rev s"
    by (cases "rev s") (simp_all add: hd_rev)
  ultimately show ?thesis by (simp add: strip_def)
qed

lemma stripped_append: "stripped (xs @ ys) = stripped xs @ stripped ys"
  by (simp add: stripped_def)

lemma stripped_Cons: "stripped (l # ls) = stripped [l] @ stripped ls"
  by (simp add: stripped_def)

lemma stripped_blank: "strip l = [] \<Longrightarrow> stripped [l] = []"
  by (simp add: stripped_def)

lemma stripped_nonblank: "strip l \<noteq> [] \<Longrightarrow> stripped [l] = [strip l]"
  by (simp add: stripped_def)

lemma stripped_strip_eq: "strip l = strip m \<Longrightarrow> stripped [l] = stripped [m]"
  by (simp add: stripped_def)

lemma parse_lines_feed: "parse_lines loads acc ls = feed loads acc (stripped ls)"
proof (induction ls arbitrary: acc)
  case Nil
  show ?case by (simp add: stripped_def)
next
  case (Cons l ls)
  show ?case
  proof (cases "strip l = []")
    case True
    then show ?thesis by (simp add: Cons.IH stripped_def)
  next
    case False
    then show ?thesis
      by (simp add: Cons.IH stripped_def split: sum.splits exn.splits)
  qed
qed

lemma stripped_Cons_blank: "strip l = [] \<Longrightarrow> stripped (l # ls) = stripped ls"
  by (simp add: stripped_def)

lemma stripped_Cons_nonblank: "strip l \<noteq> [] \<Longrightarrow> stripped (l # ls) = strip l # stripped ls"
  by (simp add: stripped_def)

lemma decoded_Cons_valid:
  "valid_line loads l \<Longrightarrow> decoded loads (l # ls) = projr (loads (strip l)) # decoded loads ls"
  by (simp add: decoded_def)

lemma decoded_Cons_invalid: "\<not> valid_line loads l \<Longrightarrow> decoded loads (l # ls) = decoded loads ls"
  by (simp add: decoded_def)

lemma feed_decoded:
  "\<forall>l\<in>set ls. valid_line loads l \<or> malformed_line loads l \<Longrightarrow>
     feed loads acc (stripped ls) = Inr (acc @ decoded loads ls)"
proof (induction ls arbitrary: acc)
  case Nil
  show ?case by (simp add: stripped_def decoded_def)
next
  case (Cons l ls)
  then have rest: "feed loads acc' (stripped ls) = Inr (acc' @ decoded loads ls)" for acc'
    by simp
  from Cons.prems have l: "valid_line loads l \<or> malformed_line loads l"
    by simp
  show ?case
  proof (cases "valid_line loads l")
    case True
    then obtain v where "strip l \<noteq> []" and "loads (strip l) = Inr v"
      by (auto simp add: valid_line_def split: sum.splits)
    with True show ?thesis
      by (simp add: stripped_Cons_nonblank decoded_Cons_valid rest)
  next
    case False
    with l have m: "malformed_line loads l" by simp
    show ?thesis
    proof (cases "strip l = []")
      case True
      with False show ?thesis
        by (simp add: stripped_Cons_blank decoded_Cons_invalid rest)
    next
      case nonblank: False
      with m obtain msg where "loads (strip l) = Inl (JSONDecodeError msg)"
        by (auto simp add: malformed_line_def split: sum.splits exn.splits)
      with False nonblank show ?thesis
        by (simp add: stripped_Cons_nonblank decoded_Cons_invalid rest)
    qed
  qed
qed

lemma split_nl_not_Nil: "split_nl s \<noteq> []"
  by (induction s) (auto split: list.splits)

lemma split_nl_no_LF: "LF \<notin> set l \<Longrightarrow> split_nl l = [l]"
  by (induction l) auto

lemma split_nl_append_LF: "LF \<notin> set l \<Longrightarrow> split_nl (l @ LF # r) = l # split_nl r"
  by (induction l) auto


lemma split_nl_snoc:
  "split_nl (u @ [c]) =
     (if c = LF then split_nl u @ [[]] else butlast (split_nl u) @ [last (split_nl u) @ [c]])"
proof (induction u)
  case Nil
  show ?case by simp
next
  case (Cons a u)
  obtain l ls where s: "split_nl u = l # ls"
    using split_nl_not_Nil [of u] by (cases "split_nl u") auto
  show ?case
    using Cons s by (auto split: list.splits)
qed

lemma stripped_split_Cons_space:
  assumes "isspace c"
  shows "stripped (split_nl (c # cs)) = stripped (split_nl cs)"
proof (cases "c = LF")
  case True
  have "stripped ([] # split_nl cs) = stripped (split_nl cs)"
    using stripped_Cons [of "[]" "split_nl cs"] by (simp add: stripped_blank strip_def)
  with True show ?thesis by simp
next
  case False
  obtain l ls where s: "split_nl cs = l # ls"
    using split_nl_not_Nil [of cs] by (cases "split_nl cs") auto
  have "stripped ((c # l) # ls) = stripped (l # ls)"
    using stripped_Cons [of "c # l" ls] stripped_Cons [of l ls]
      stripped_strip_eq [of "c # l" l] assms
    by (simp add: strip_Cons_space)
  with False s show ?thesis by simp
qed

lemma stripped_split_snoc_space:
  assumes "isspace c"
  shows "stripped (split_nl (u @ [c])) = stripped (split_nl u)"
proof (cases "c = LF")
  case True
  then show ?thesis
    by (simp add: split_nl_snoc stripped_append stripped_blank strip_def)
next
  case False
  have ne: "split_nl u \<noteq> []" by (rule split_nl_not_Nil)
  have "stripped [last (split_nl u) @ [c]] = stripped [last (split_nl u)]"
    by (rule stripped_strip_eq) (simp add: strip_snoc_space assms)
  then have "stripped (butlast (split_nl u) @ [last (split_nl u) @ [c]])
      = stripped (butlast (split_nl u) @ [last (split_nl u)])"
    by (simp add: stripped_append)
  with False ne show ?thesis by (simp add: split_nl_snoc)
qed

lemma stripped_split_lstrip:
  "stripped (split_nl (dropWhile isspace t)) = stripped (split_nl t)"
proof (induction t)
  case Nil
  show ?case by simp
next
  case (Cons c cs)
  show ?case
  proof (cases "isspace c")
    case True
    then show ?thesis using Cons stripped_split_Cons_space [of c cs] by simp
  next
    case False
    then show ?thesis by simp
  qed
qed

lemma stripped_split_rstrip:
  "stripped (split_nl (rev (dropWhile isspace (rev t)))) = stripped (split_nl t)"
proof (induction t rule: rev_induct)
  case Nil
  show ?case by simp
next
  case (snoc c u)
  show ?case
  proof (cases "isspace c")
    case True
    then show ?thesis using snoc stripped_split_snoc_space [of c u] by simp
  next
    case False
    then show ?thesis by simp
  qed
qed

lemma stripped_split_strip: "stripped (split_nl (strip t)) = stripped (split_nl t)"
  unfolding strip_def
  using stripped_split_rstrip [of "dropWhile isspace t"] stripped_split_lstrip [of t]
  by simp

lemma parse_order_book_feed: "parse_order_book loads t = feed loads [] (stripped (split_nl t))"
proof (cases "strip t = []")
  case True
  have "stripped (split_nl (strip t)) = []"
    unfolding True by (simp add: stripped_blank strip_def)
  then have "stripped (split_nl t) = []"
    by (simp add: stripped_split_strip)
  with True show ?thesis by (simp add: parse_order_book_def)
next
  case False
  then show ?thesis
    by (simp add: parse_order_book_def parse_lines_feed stripped_split_strip)
qed

lemma parse_order_book_Nil: "parse_order_book loads [] = Inr []"
  by (simp add: parse_order_book_def strip_def)

lemma line_facts:
  "strip line_101 = line_101" "strip line_102 = line_102"
  "LF \<notin> set line_101" "LF \<notin> set line_102"
  "CR \<notin> set line_101" "CR \<notin> set line_102"
  "line_101 \<noteq> []" "line_102 \<noteq> []" "line_102 \<noteq> line_101"
  by (simp_all add: strip_def isspace_def whitespace_def line_101_def line_102_def LF_def CR_def)

lemma deep_line_set: "set deep_line = {CHR ''[''}"
  by (simp only: deep_line_def set_replicate_conv_if) simp

lemma deep_line_not_Nil: "deep_line \<noteq> []"
  by (simp only: deep_line_def replicate_empty)

lemma deep_line_strip: "strip deep_line = deep_line"
proof -
  have "hd deep_line \<in> set deep_line" "last deep_line \<in> set deep_line"
    using deep_line_not_Nil by simp_all
  then have "hd deep_line = CHR ''[''" "last deep_line = CHR ''[''"
    by (simp_all add: deep_line_set)
  then show ?thesis
    using deep_line_not_Nil by (intro strip_unchanged) (simp_all add: isspace_def whitespace_def)
qed

lemma deep_line_no_LF: "LF \<notin> set deep_line"
  by (simp add: deep_line_set LF_def)

lemma not_deep_line: "c \<in> set s \<Longrightarrow> c \<noteq> CHR ''['' \<Longrightarrow> s \<noteq> deep_line"
  using deep_line_set by auto

lemma deep_line_not_line:
  "deep_line \<noteq> line_101" "deep_line \<noteq> line_102"
proof -
  have "line_101 \<noteq> deep_line"
    by (rule not_deep_line [of "CHR ''{''"]) (simp_all add: line_101_def)
  then show "deep_line \<noteq> line_101" by (rule not_sym)
  have "line_102 \<noteq> deep_line"
    by (rule not_deep_line [of "CHR ''{''"]) (simp_all add: line_102_def)
  then show "deep_line \<noteq> line_102" by (rule not_sym)
qed

lemmas deep_line_facts =
  deep_line_strip deep_line_no_LF deep_line_not_Nil deep_line_not_line

lemma example_loads_facts:
  "example_loads line_101 = Inr record_101"
  "example_loads line_102 = Inr record_102"
  "example_loads deep_line = Inl (OtherException ''maximum recursion depth exceeded'')"
  by (simp_all add: example_loads_def line_facts deep_line_facts)

lemma parse_two_lines:
  assumes "loads line_101 = Inr r1" and "loads line_102 = Inr r2"
  shows "parse_order_book loads (line_101 @ LF # line_102) = Inr [r1, r2]"
proof -
  have "split_nl (line_101 @ LF # line_102) = [line_101, line_102]"
    by (simp add: split_nl_append_LF split_nl_no_LF line_facts)
  then show ?thesis
    using assms by (simp add: parse_order_book_feed stripped_def line_facts)
qed

subsection \<open>The stream record parser\<close>




subsection \<open>Facts about a run\<close>

lemma outer_except_HTTPException:
  "outer_except (Inl (HTTPException c d)) = Inl (HTTPException 500 (''Error: '' @ string_of_int c @ '': '' @ d))"
  by (simp add: outer_except_def)

lemma remove_output_ok:
  "output_file f = None \<or> unlink_error f = None \<Longrightarrow>
     remove_output f =
       Inr (f\<lparr>output_file := None\<rparr>, if output_file f \<noteq> None then [Unlinked] else [])"
  by (auto simp add: remove_output_def)

lemma start_streaming_data_file:
  "data_file f \<Longrightarrow> output_file f = None \<or> unlink_error f = None \<Longrightarrow>
     start_streaming loads w f =
       (outer_except (fst (run_pipeline loads w)), f\<lparr>output_file := None\<rparr>,
        (if output_file f \<noteq> None then [Unlinked] else [])
          @ map Requested (snd (run_pipeline loads w)))"
  by (simp add: start_streaming_def remove_output_ok split: prod.splits)

lemma run_pipeline_success:
  "sender_step (post_sender_start_streaming w) = Inr sd \<Longrightarrow>
   receiver_step (post_receiver_start_processing w) = Inr rd \<Longrightarrow>
   run_pipeline loads w =
     (case order_book_step (get_receiver_order_book w) of
        Inl e \<Rightarrow> Inl e
      | Inr t \<Rightarrow>
          (case parse_order_book loads t of
             Inl e \<Rightarrow> Inl e
           | Inr order_book_data \<Rightarrow>
               Inr (make_result sd (stats_step (get_receiver_stats w) rd) order_book_data)),
      [PostSenderStartStreaming, PostReceiverStartProcessing, GetReceiverStats,
       GetReceiverOrderBook])"
  by (simp add: run_pipeline_def split: sum.splits)

lemma example_steps:
  "sender_step (post_sender_start_streaming example_world)
     = Inr (JObj [(''message'', JStr ''streaming started'')])"
  "receiver_step (post_receiver_start_processing example_world)
     = Inr (JObj [(''message'', JStr ''processing completed'')])"
  "order_book_step (get_receiver_order_book example_world) = Inr (line_101 @ LF # line_102)"
  "data_file example_fs" "unlink_error example_fs = None"
  by (simp_all add: example_world_def example_fs_def sender_step_def receiver_step_def
      order_book_step_def ok_response_def dict_get_def)

subsection \<open>Reading the order book\<close>

text \<open>
  Claim C8. When the output file does not exist, \<^verbatim>\<open>GET /api/order-book\<close> raises
  \<^verbatim>\<open>HTTPException(404, "No order book data available")\<close>: a missing file is the state
  "no data yet" (HTTP 404), not a read error (HTTP 500).
\<close>

theorem get_order_book_no_data:
  "output_file f = None \<Longrightarrow>
     get_order_book loads f = Inl (HTTPException 404 ''No order book data available'')
     \<and> http_status (get_order_book loads f) = 404"
  by (simp add: get_order_book_def)

theorem get_order_book_no_data_witness:
  "get_order_book example_loads \<lparr>data_file = True, output_file = None, unlink_error = None\<rparr>
     = Inl (HTTPException 404 ''No order book data available'')
   \<and> http_status (get_order_book example_loads
       \<lparr>data_file = True, output_file = None, unlink_error = None\<rparr>) = 404"
  using get_order_book_no_data
    [of "\<lparr>data_file = True, output_file = None, unlink_error = None\<rparr>" example_loads]
  by simp

subsection \<open>Starting a run\<close>

text \<open>
  Claim C4, at the input it is about: the data file is absent. The handler contacts no
  service and leaves the files as they are, but the \<^verbatim>\<open>HTTPException(404)\<close> of line 43 is
  raised inside the \<^verbatim>\<open>try\<close> block, is caught by \<^verbatim>\<open>except Exception\<close> at line 150 and
  reaches the client as HTTP 500 with the detail \<^verbatim>\<open>Error: 404: Data file not found\<close>.
\<close>

theorem start_streaming_input_missing:
  "start_streaming loads w \<lparr>data_file = False, output_file = out, unlink_error = u\<rparr>
     = (Inl (HTTPException 500 ''Error: 404: Data file not found''),
        \<lparr>data_file = False, output_file = out, unlink_error = u\<rparr>, [])
   \<and> http_status (fst (start_streaming loads w
       \<lparr>data_file = False, output_file = out, unlink_error = u\<rparr>)) = 500"
  by (simp add: start_streaming_def outer_except_HTTPException string_of_int_404)

text \<open>
  Claim C5. In a run that gets to the sender (the data file exists and removing the old
  output file did not raise), when the call that activates the sender answers with a status
  other than 200, or raises, the run ends there: the handler raises an \<^verbatim>\<open>HTTPException\<close>
  with status 500 whose detail names the sender's failure, and the only request it has made
  is the one to the sender, so the receiver is never activated.
\<close>

theorem producer_activation_failed:
  "data_file f \<Longrightarrow> output_file f = None \<or> unlink_error f = None \<Longrightarrow>
     (\<forall>r. post_sender_start_streaming w = Inr r \<longrightarrow> status_code r \<noteq> 200 \<longrightarrow>
        start_streaming loads w f =
          (Inl (HTTPException 500 (''Error: 500: Sender microservice failed: '' @ resp_text r)),
           f\<lparr>output_file := None\<rparr>,
           (if output_file f \<noteq> None then [Unlinked] else [])
             @ [Requested PostSenderStartStreaming]))
     \<and> (\<forall>e. post_sender_start_streaming w = Inl e \<longrightarrow>
        start_streaming loads w f =
          (Inl (HTTPException 500
             (case e of
                RequestException msg \<Rightarrow> ''Microservice communication failed: '' @ msg
              | _ \<Rightarrow> ''Error: '' @ str_exn e)),
           f\<lparr>output_file := None\<rparr>,
           (if output_file f \<noteq> None then [Unlinked] else [])
             @ [Requested PostSenderStartStreaming]))"
proof -
  assume d: "data_file f" and u: "output_file f = None \<or> unlink_error f = None"
  have a: "start_streaming loads w f =
      (Inl (HTTPException 500 (''Error: 500: Sender microservice failed: '' @ resp_text r)),
       f\<lparr>output_file := None\<rparr>,
       (if output_file f \<noteq> None then [Unlinked] else []) @ [Requested PostSenderStartStreaming])"
    if "post_sender_start_streaming w = Inr r" and "status_code r \<noteq> 200" for r
    using that
    by (simp add: start_streaming_data_file [OF d u] run_pipeline_def sender_step_def
        outer_except_HTTPException string_of_int_500)
  have b: "start_streaming loads w f =
      (Inl (HTTPException 500
         (case e of
            RequestException msg \<Rightarrow> ''Microservice communication failed: '' @ msg
          | _ \<Rightarrow> ''Error: '' @ str_exn e)),
       f\<lparr>output_file := None\<rparr>,
       (if output_file f \<noteq> None then [Unlinked] else []) @ [Requested PostSenderStartStreaming])"
    if "post_sender_start_streaming w = Inl e" for e
    using that
    by (cases e) (simp_all add: start_streaming_data_file [OF d u] run_pipeline_def
        sender_step_def outer_except_def)
  from a b show ?thesis by blast
qed

theorem producer_activation_failed_witness:
  "start_streaming example_loads (example_world\<lparr>post_sender_start_streaming := Inr unavailable\<rparr>)
       example_fs
     = (Inl (HTTPException 500 ''Error: 500: Sender microservice failed: Service Unavailable''),
        \<lparr>data_file = True, output_file = None, unlink_error = None\<rparr>,
        [Unlinked, Requested PostSenderStartStreaming])
   \<and> start_streaming example_loads (example_world\<lparr>post_sender_start_streaming := unreachable\<rparr>)
       example_fs
     = (Inl (HTTPException 500 ''Microservice communication failed: Connection refused''),
        \<lparr>data_file = True, output_file = None, unlink_error = None\<rparr>,
        [Unlinked, Requested PostSenderStartStreaming])"
  using
    producer_activation_failed [of example_fs
      "example_world\<lparr>post_sender_start_streaming := Inr unavailable\<rparr>" example_loads]
    producer_activation_failed [of example_fs
      "example_world\<lparr>post_sender_start_streaming := unreachable\<rparr>" example_loads]
  by (simp add: example_fs_def example_world_def unavailable_def unreachable_def)

subsection \<open>Probing the services\<close>

text \<open>
  Claim C6 as stated fails for an answer that is not a success: the sender answers its
  status request with 503, and its entry stays \<^verbatim>\<open>"unknown"\<close>; it does not become
  \<^verbatim>\<open>"not_running"\<close>.
\<close>

theorem check_microservice_non_success:
  "get_microservices_status (example_world\<lparr>get_sender_status := Inr unavailable\<rparr>) example_fs
     = Inr \<lparr> python_server_status = ''ready'',
             sender_microservice_status = ''unknown'',
             receiver_microservice_status = ''ready'',
             data_file_exists = True,
             output_file_exists = True \<rparr>"
  by (simp add: get_microservices_status_def check_microservice_def example_world_def
      example_fs_def unavailable_def ok_response_def)

text \<open>
  Claim C6, amended. The status handler never raises and answers with HTTP 200. For each
  service, a request that raises (unreachable, timed out) gives \<^verbatim>\<open>"not_running"\<close>, an
  answer with status 200 gives \<^verbatim>\<open>"ready"\<close>, and an answer with any other status leaves
  \<^verbatim>\<open>"unknown"\<close>.
\<close>

theorem get_microservices_status_never_raises:
  "\<exists>rep. get_microservices_status w f = Inr rep
     \<and> sender_microservice_status rep =
         (case get_sender_status w of
            Inl e \<Rightarrow> ''not_running''
          | Inr r \<Rightarrow> if status_code r = 200 then ''ready'' else ''unknown'')
     \<and> receiver_microservice_status rep =
         (case get_receiver_status w of
            Inl e \<Rightarrow> ''not_running''
          | Inr r \<Rightarrow> if status_code r = 200 then ''ready'' else ''unknown'')
     \<and> http_status (get_microservices_status w f) = 200"
  by (simp add: get_microservices_status_def check_microservice_def)

theorem get_microservices_status_never_raises_witness:
  "\<exists>rep. get_microservices_status
       (example_world\<lparr>get_sender_status := unreachable, get_receiver_status := unreachable\<rparr>)
       example_fs = Inr rep
     \<and> sender_microservice_status rep = ''not_running''
     \<and> receiver_microservice_status rep = ''not_running''
     \<and> http_status (get_microservices_status
       (example_world\<lparr>get_sender_status := unreachable, get_receiver_status := unreachable\<rparr>)
       example_fs) = 200"
  using get_microservices_status_never_raises
    [of "example_world\<lparr>get_sender_status := unreachable, get_receiver_status := unreachable\<rparr>"
      example_fs]
  by (simp add: unreachable_def)

subsection \<open>A run that reaches its later steps\<close>

text \<open>
  Claim C3. When the sender, the receiver and the order book request succeed, then for
  every record sequence the parser returns, the handler returns a result whose \<^verbatim>\<open>data\<close>
  is that sequence, whose \<^verbatim>\<open>total_records\<close> is its length and whose
  \<^verbatim>\<open>final_order_book\<close> is its last record, or the empty dict when the sequence is empty.
  For the payload of the two lines \<open>line_101\<close> and \<open>line_102\<close> the final state is the
  record of \<open>line_102\<close> and the count is 2; for the empty payload the result holds the
  empty dict, the count 0 and no record, and is still a returned value.
\<close>

theorem final_state_is_last_record:
  "data_file f \<Longrightarrow> output_file f = None \<or> unlink_error f = None \<Longrightarrow>
   sender_step (post_sender_start_streaming w) = Inr sd \<Longrightarrow>
   receiver_step (post_receiver_start_processing w) = Inr rd \<Longrightarrow>
   order_book_step (get_receiver_order_book w) = Inr t \<Longrightarrow>
     (\<forall>records. parse_order_book loads t = Inr records \<longrightarrow>
        (\<exists>res. fst (start_streaming loads w f) = Inr res
           \<and> data res = records
           \<and> total_records res = length records
           \<and> final_order_book res = (if records = [] then JObj [] else last records)))
     \<and> (t = line_101 @ LF # line_102 \<longrightarrow> loads line_101 = Inr r1 \<longrightarrow> loads line_102 = Inr r2 \<longrightarrow>
          (\<exists>res. fst (start_streaming loads w f) = Inr res
             \<and> final_order_book res = r2 \<and> total_records res = 2))
     \<and> (t = [] \<longrightarrow>
          (\<exists>res. fst (start_streaming loads w f) = Inr res
             \<and> final_order_book res = JObj [] \<and> total_records res = 0 \<and> data res = []))"
proof -
  assume d: "data_file f" and u: "output_file f = None \<or> unlink_error f = None"
    and s: "sender_step (post_sender_start_streaming w) = Inr sd"
    and r: "receiver_step (post_receiver_start_processing w) = Inr rd"
    and t: "order_book_step (get_receiver_order_book w) = Inr t"
  have out: "fst (start_streaming loads w f)
      = Inr (make_result sd (stats_step (get_receiver_stats w) rd) records)"
    if "parse_order_book loads t = Inr records" for records
    using that t
    by (simp add: start_streaming_data_file [OF d u] run_pipeline_success [OF s r]
        outer_except_def)
  have general: "\<exists>res. fst (start_streaming loads w f) = Inr res
      \<and> data res = records \<and> total_records res = length records
      \<and> final_order_book res = (if records = [] then JObj [] else last records)"
    if "parse_order_book loads t = Inr records" for records
    using out [OF that] by (simp add: make_result_def final_state_def)
  have two: "\<exists>res. fst (start_streaming loads w f) = Inr res
      \<and> final_order_book res = r2 \<and> total_records res = 2"
    if "t = line_101 @ LF # line_102" "loads line_101 = Inr r1" "loads line_102 = Inr r2"
    using general [of "[r1, r2]"] that by (auto simp add: parse_two_lines)
  have none: "\<exists>res. fst (start_streaming loads w f) = Inr res
      \<and> final_order_book res = JObj [] \<and> total_records res = 0 \<and> data res = []"
    if "t = []"
    using general [of "[]"] that by (auto simp add: parse_order_book_Nil)
  from general two none show ?thesis by blast
qed

theorem final_state_is_last_record_witness:
  "\<exists>res. fst (start_streaming example_loads example_world example_fs) = Inr res
     \<and> data res = [record_101, record_102]
     \<and> total_records res = 2
     \<and> final_order_book res = record_102"
proof -
  have p: "parse_order_book example_loads (line_101 @ LF # line_102)
      = Inr [record_101, record_102]"
    by (rule parse_two_lines) (simp_all add: example_loads_facts)
  show ?thesis
    using final_state_is_last_record
      [OF example_steps(4) disjI2 [OF example_steps(5)] example_steps(1) example_steps(2)
        example_steps(3), of example_loads record_101 record_102] p
    by auto
qed

text \<open>
  Claim C9. Once the sender and the receiver have answered with success, a statistics
  request that raises or answers with a status other than 200 changes nothing: what the
  handler returns or raises is decided by the order book request and its parsing alone, and
  a returned result carries the receiver's activation answer as \<^verbatim>\<open>receiver_stats\<close>.
\<close>

theorem stats_failure_keeps_run:
  "data_file f \<Longrightarrow> output_file f = None \<or> unlink_error f = None \<Longrightarrow>
   sender_step (post_sender_start_streaming w) = Inr sd \<Longrightarrow>
   receiver_step (post_receiver_start_processing w) = Inr rd \<Longrightarrow>
   (case get_receiver_stats w of
      Inl e \<Rightarrow> True
    | Inr stats_response \<Rightarrow> status_code stats_response \<noteq> 200) \<Longrightarrow>
     fst (start_streaming loads w f) =
       (case order_book_step (get_receiver_order_book w) of
          Inl e \<Rightarrow> outer_except (Inl e)
        | Inr t \<Rightarrow>
            (case parse_order_book loads t of
               Inl e \<Rightarrow> outer_except (Inl e)
             | Inr records \<Rightarrow> Inr (make_result sd rd records)))
     \<and> (\<forall>res. fst (start_streaming loads w f) = Inr res \<longrightarrow> receiver_stats res = rd)"
proof -
  assume d: "data_file f" and u: "output_file f = None \<or> unlink_error f = None"
    and s: "sender_step (post_sender_start_streaming w) = Inr sd"
    and r: "receiver_step (post_receiver_start_processing w) = Inr rd"
    and st: "case get_receiver_stats w of
               Inl e \<Rightarrow> True
             | Inr stats_response \<Rightarrow> status_code stats_response \<noteq> 200"
  from st have keep: "stats_step (get_receiver_stats w) rd = rd"
    by (simp add: stats_step_def split: sum.splits)
  have out: "fst (start_streaming loads w f) =
       (case order_book_step (get_receiver_order_book w) of
          Inl e \<Rightarrow> outer_except (Inl e)
        | Inr t \<Rightarrow>
            (case parse_order_book loads t of
               Inl e \<Rightarrow> outer_except (Inl e)
             | Inr records \<Rightarrow> Inr (make_result sd rd records)))"
    by (simp add: start_streaming_data_file [OF d u] run_pipeline_success [OF s r] keep
        outer_except_def split: sum.splits)
  have "receiver_stats res = rd" if "fst (start_streaming loads w f) = Inr res" for res
    using that unfolding out
    by (auto simp add: make_result_def outer_except_def split: sum.splits exn.splits)
  with out show ?thesis by blast
qed

theorem stats_failure_keeps_run_witness:
  "fst (start_streaming example_loads example_world example_fs) =
     Inr (make_result (JObj [(''message'', JStr ''streaming started'')])
            (JObj [(''message'', JStr ''processing completed'')])
            [record_101, record_102])
   \<and> fst (start_streaming example_loads (example_world\<lparr>get_receiver_stats := unreachable\<rparr>)
       example_fs) =
     Inr (make_result (JObj [(''message'', JStr ''streaming started'')])
            (JObj [(''message'', JStr ''processing completed'')])
            [record_101, record_102])"
proof -
  let ?w = "example_world\<lparr>get_receiver_stats := unreachable\<rparr>"
  have s: "sender_step (post_sender_start_streaming ?w)
      = Inr (JObj [(''message'', JStr ''streaming started'')])"
    and r: "receiver_step (post_receiver_start_processing ?w)
      = Inr (JObj [(''message'', JStr ''processing completed'')])"
    and t: "order_book_step (get_receiver_order_book ?w) = Inr (line_101 @ LF # line_102)"
    using example_steps by simp_all
  have st: "case get_receiver_stats example_world of
              Inl e \<Rightarrow> True
            | Inr stats_response \<Rightarrow> status_code stats_response \<noteq> 200"
    "case get_receiver_stats ?w of
              Inl e \<Rightarrow> True
            | Inr stats_response \<Rightarrow> status_code stats_response \<noteq> 200"
    by (simp_all add: example_world_def unavailable_def unreachable_def)
  have p: "parse_order_book example_loads (line_101 @ LF # line_102)
      = Inr [record_101, record_102]"
    by (rule parse_two_lines) (simp_all add: example_loads_facts)
  show ?thesis
    using
      stats_failure_keeps_run [OF example_steps(4) disjI2 [OF example_steps(5)]
        example_steps(1) example_steps(2) st(1), of example_loads]
      stats_failure_keeps_run [OF example_steps(4) disjI2 [OF example_steps(5)] s r st(2),
        of example_loads]
    by (simp add: example_steps(3) t p)
qed

subsection \<open>The persisted output\<close>

lemma universal_newlines_no_CR: "CR \<notin> set s \<Longrightarrow> universal_newlines s = s"
  by (induction s rule: universal_newlines.induct) auto

lemma keepends_no_LF: "LF \<notin> set l \<Longrightarrow> keepends l = (if l = [] then [] else [l])"
  by (induction l) (auto split: list.splits)

lemma keepends_append_LF: "LF \<notin> set l \<Longrightarrow> keepends (l @ LF # r) = (l @ [LF]) # keepends r"
  by (induction l) auto

lemma stripped_line_LF: "stripped [l @ [LF]] = stripped [l]"
  by (rule stripped_strip_eq) (simp add: strip_snoc_space isspace_LF)

lemma stripped_keepends_join:
  "\<forall>l\<in>set ls. LF \<notin> set l \<Longrightarrow> stripped (keepends (join_nl ls)) = stripped ls"
proof (induction ls rule: join_nl.induct)
  case 1
  show ?case by simp
next
  case (2 l)
  then show ?case
    by (simp add: keepends_no_LF stripped_blank strip_def) (simp add: stripped_def)
next
  case (3 l m ls)
  then have "stripped (keepends (join_nl (m # ls))) = stripped (m # ls)"
    by simp
  moreover have "keepends (join_nl (l # m # ls)) = (l @ [LF]) # keepends (join_nl (m # ls))"
    using 3 by (simp add: keepends_append_LF)
  ultimately show ?case
    using stripped_Cons [of "l @ [LF]" "keepends (join_nl (m # ls))"]
      stripped_Cons [of l "m # ls"]
    by (simp add: stripped_line_LF)
qed

lemma stripped_keepends_concat:
  "\<forall>l\<in>set ls. LF \<notin> set l \<Longrightarrow>
     stripped (keepends (concat (map (\<lambda>l. l @ [LF]) ls))) = stripped ls"
proof (induction ls)
  case Nil
  show ?case by simp
next
  case (Cons l ls)
  then have "stripped (keepends (concat (map (\<lambda>l. l @ [LF]) ls))) = stripped ls"
    by simp
  moreover have "keepends (concat (map (\<lambda>l. l @ [LF]) (l # ls)))
      = (l @ [LF]) # keepends (concat (map (\<lambda>l. l @ [LF]) ls))"
    using Cons.prems by (simp add: keepends_append_LF)
  ultimately show ?case
    using stripped_Cons [of "l @ [LF]" "keepends (concat (map (\<lambda>l. l @ [LF]) ls))"]
      stripped_Cons [of l ls]
    by (simp add: stripped_line_LF)
qed

lemma stripped_readlines_line:
  assumes "LF \<notin> set l" and "CR \<notin> set l"
  shows "stripped (readlines (l @ [LF])) = stripped [l]"
proof -
  have "CR \<notin> set (l @ [LF])"
    using assms by (simp add: CR_def LF_def)
  then have "universal_newlines (l @ [LF]) = l @ [LF]"
    by (rule universal_newlines_no_CR)
  then have "readlines (l @ [LF]) = keepends (l @ [LF])"
    by (simp only: readlines_def)
  also have "\<dots> = [l @ [LF]]"
    using assms by (simp add: keepends_append_LF)
  finally show ?thesis
    by (simp only: stripped_line_LF)
qed

lemma decoded_encoded:
  "\<forall>r\<in>set rs. strip (enc r) \<noteq> [] \<and> loads (strip (enc r)) = Inr r \<Longrightarrow>
     decoded loads (map enc rs) = rs"
  by (induction rs) (simp_all add: decoded_def valid_line_def)

lemma get_order_book_Text:
  "get_order_book loads \<lparr>data_file = d, output_file = Some (Text content), unlink_error = u\<rparr> =
     (case feed loads [] (stripped (readlines content)) of
        Inl e \<Rightarrow> Inl (HTTPException 500 (''Error reading order book: '' @ str_exn e))
      | Inr order_book_data \<Rightarrow>
          Inr \<lparr> status = ''success'',
                total_records = length order_book_data,
                data = order_book_data \<rparr>)"
  by (simp add: get_order_book_def parse_lines_feed)

text \<open>
  Claim C7 as stated fails where it has the aggregator persist the records: a run that
  succeeds with two records writes no output file. With no output file before the run
  there is none after it, and \<^verbatim>\<open>GET /api/order-book\<close> answers 404 on the files the
  handler leaves.
\<close>

theorem start_streaming_writes_no_output:
  "fst (start_streaming example_loads example_world
      \<lparr>data_file = True, output_file = None, unlink_error = None\<rparr>)
     = Inr \<lparr> status = ''success'', total_records = 2, data = [record_101, record_102],
             message = ''Microservices completed successfully'',
             final_order_book = record_102,
             sender_stats = JObj [(''message'', JStr ''streaming started'')],
             receiver_stats = JObj [(''message'', JStr ''processing completed'')] \<rparr>
   \<and> get_order_book example_loads
       (fst (snd (start_streaming example_loads example_world
          \<lparr>data_file = True, output_file = None, unlink_error = None\<rparr>)))
     = Inl (HTTPException 404 ''No order book data available'')"
proof -
  have p: "parse_order_book example_loads (line_101 @ LF # line_102)
      = Inr [record_101, record_102]"
    by (rule parse_two_lines) (simp_all add: example_loads_facts)
  have st: "stats_step (get_receiver_stats example_world) rd = rd" for rd
    by (simp add: stats_step_def example_world_def unavailable_def)
  have "run_pipeline example_loads example_world =
      (Inr (make_result (JObj [(''message'', JStr ''streaming started'')])
              (JObj [(''message'', JStr ''processing completed'')])
              [record_101, record_102]),
       [PostSenderStartStreaming, PostReceiverStartProcessing, GetReceiverStats,
        GetReceiverOrderBook])"
    by (simp add: run_pipeline_success [OF example_steps(1) example_steps(2)]
        example_steps(3) p st)
  then show ?thesis
    by (simp add: start_streaming_data_file outer_except_def make_result_def final_state_def
        get_order_book_def)
qed

text \<open>
  Claim C7, amended. The read path returns a persisted sequence unchanged: when the output
  file holds the records \<open>rs\<close> one per line (joined by line feeds, or each followed by one),
  each line \<open>enc r\<close> free of line breaks and decoded to \<open>r\<close> by the decoder,
  \<^verbatim>\<open>GET /api/order-book\<close> returns exactly \<open>rs\<close>, in order, with their count. The handler
  of \<^verbatim>\<open>POST /api/start-streaming\<close> itself never writes that file: its own operations
  leave it absent when the data file exists and the removal does not raise, and untouched
  otherwise.
\<close>

theorem order_book_read_back:
  "(\<forall>r\<in>set rs. LF \<notin> set (enc r) \<and> CR \<notin> set (enc r)
       \<and> strip (enc r) \<noteq> [] \<and> loads (strip (enc r)) = Inr r) \<Longrightarrow>
     get_order_book loads
         \<lparr>data_file = d, output_file = Some (Text (join_nl (map enc rs))), unlink_error = u\<rparr>
       = Inr \<lparr> status = ''success'', total_records = length rs, data = rs \<rparr>
     \<and> get_order_book loads
         \<lparr>data_file = d, output_file = Some (Text (concat (map (\<lambda>r. enc r @ [LF]) rs))),
          unlink_error = u\<rparr>
       = Inr \<lparr> status = ''success'', total_records = length rs, data = rs \<rparr>
     \<and> output_file (fst (snd (start_streaming loads w f)))
       = (if data_file f \<and> unlink_error f = None then None else output_file f)"
proof -
  assume enc: "\<forall>r\<in>set rs. LF \<notin> set (enc r) \<and> CR \<notin> set (enc r)
       \<and> strip (enc r) \<noteq> [] \<and> loads (strip (enc r)) = Inr r"
  then have lf: "\<forall>l\<in>set (map enc rs). LF \<notin> set l"
    and dec: "decoded loads (map enc rs) = rs"
    and ok: "\<forall>l\<in>set (map enc rs). valid_line loads l \<or> malformed_line loads l"
    by (simp_all add: decoded_encoded valid_line_def)
  have fed: "feed loads [] (stripped (map enc rs)) = Inr rs"
    using feed_decoded [OF ok, of "[]"] by (simp add: dec)
  have cr1: "CR \<notin> set (join_nl (map enc rs))"
    using enc by (induction rs rule: induct_list012) (simp_all add: CR_def LF_def)
  have cr2: "CR \<notin> set (concat (map (\<lambda>r. enc r @ [LF]) rs))"
    using enc by (auto simp add: CR_def LF_def)
  have c2: "concat (map (\<lambda>r. enc r @ [LF]) rs) = concat (map (\<lambda>l. l @ [LF]) (map enc rs))"
    by (simp add: comp_def)
  have "stripped (readlines (join_nl (map enc rs))) = stripped (map enc rs)"
    by (simp only: readlines_def universal_newlines_no_CR [OF cr1] stripped_keepends_join [OF lf])
  then have one: "feed loads [] (stripped (readlines (join_nl (map enc rs)))) = Inr rs"
    by (simp only: fed)
  have "readlines (concat (map (\<lambda>r. enc r @ [LF]) rs))
      = keepends (concat (map (\<lambda>r. enc r @ [LF]) rs))"
    by (simp only: readlines_def universal_newlines_no_CR [OF cr2])
  then have "stripped (readlines (concat (map (\<lambda>r. enc r @ [LF]) rs))) = stripped (map enc rs)"
    by (simp only: c2 stripped_keepends_concat [OF lf])
  then have two: "feed loads [] (stripped (readlines (concat (map (\<lambda>r. enc r @ [LF]) rs))))
      = Inr rs"
    by (simp only: fed)
  have three: "output_file (fst (snd (start_streaming loads w f)))
       = (if data_file f \<and> unlink_error f = None then None else output_file f)"
    by (auto simp add: start_streaming_def remove_output_def split: prod.splits option.splits)
  show ?thesis
    by (simp only: get_order_book_Text one two three) simp
qed

theorem order_book_read_back_witness:
  "get_order_book example_loads
     \<lparr>data_file = True, output_file = Some (Text (line_101 @ LF # line_102)),
      unlink_error = None\<rparr>
     = Inr \<lparr> status = ''success'', total_records = 2, data = [record_101, record_102] \<rparr>
   \<and> get_order_book example_loads
     \<lparr>data_file = True, output_file = Some (Text (line_101 @ LF # line_102 @ [LF])),
      unlink_error = None\<rparr>
     = Inr \<lparr> status = ''success'', total_records = 2, data = [record_101, record_102] \<rparr>
   \<and> output_file (fst (snd (start_streaming example_loads example_world example_fs))) = None"
proof -
  let ?enc = "\<lambda>r. if r = record_101 then line_101 else line_102"
  have ne: "record_102 \<noteq> record_101"
    by (simp add: record_101_def record_102_def)
  have h: "\<forall>r\<in>set [record_101, record_102]. LF \<notin> set (?enc r) \<and> CR \<notin> set (?enc r)
       \<and> strip (?enc r) \<noteq> [] \<and> example_loads (strip (?enc r)) = Inr r"
    using ne by (simp add: line_facts example_loads_facts)
  show ?thesis
    using order_book_read_back [OF h, of True None example_world example_fs] ne
    by (simp add: example_steps)
qed

text \<open>
  Claim C10 as stated fails in two places. After a run that fails at the output retrieval
  (the order book request answers 503) the output file is not absent when the receiver has
  written it during the run, as lines 87-89 expect: \<^verbatim>\<open>GET /api/order-book\<close> then returns
  the receiver's record. And the old output file is not always deleted: when
  \<^verbatim>\<open>unlink()\<close> raises, the handler ends with HTTP 500 before any request and the file stays.
\<close>

theorem output_present_after_failed_run:
  "get_order_book example_loads
      (files_after_run
         (example_world\<lparr>get_receiver_order_book := Inr unavailable,
            receiver_writes := Some (Text (line_102 @ [LF]))\<rparr>)
         (fst (snd (start_streaming example_loads
            (example_world\<lparr>get_receiver_order_book := Inr unavailable,
               receiver_writes := Some (Text (line_102 @ [LF]))\<rparr>) example_fs)))
         (snd (snd (start_streaming example_loads
            (example_world\<lparr>get_receiver_order_book := Inr unavailable,
               receiver_writes := Some (Text (line_102 @ [LF]))\<rparr>) example_fs))))
     = Inr \<lparr> status = ''success'', total_records = 1, data = [record_102] \<rparr>
   \<and> fst (start_streaming example_loads
        (example_world\<lparr>get_receiver_order_book := Inr unavailable,
           receiver_writes := Some (Text (line_102 @ [LF]))\<rparr>) example_fs)
     = Inl (HTTPException 500 ''Error: 500: Failed to get order book: Service Unavailable'')
   \<and> start_streaming example_loads example_world
        (example_fs\<lparr>unlink_error := Some (OtherException ''Permission denied'')\<rparr>)
     = (Inl (HTTPException 500 ''Error: Permission denied''),
        example_fs\<lparr>unlink_error := Some (OtherException ''Permission denied'')\<rparr>, [])"
proof -
  let ?w = "example_world\<lparr>get_receiver_order_book := Inr unavailable,
            receiver_writes := Some (Text (line_102 @ [LF]))\<rparr>"
  have run: "run_pipeline example_loads ?w =
      (Inl (HTTPException 500 ''Failed to get order book: Service Unavailable''),
       [PostSenderStartStreaming, PostReceiverStartProcessing, GetReceiverStats,
        GetReceiverOrderBook])"
    by (simp add: run_pipeline_def example_world_def sender_step_def receiver_step_def
        order_book_step_def ok_response_def unavailable_def dict_get_def)
  have out: "start_streaming example_loads ?w example_fs =
      (Inl (HTTPException 500 ''Error: 500: Failed to get order book: Service Unavailable''),
       example_fs\<lparr>output_file := None\<rparr>,
       [Unlinked, Requested PostSenderStartStreaming, Requested PostReceiverStartProcessing,
        Requested GetReceiverStats, Requested GetReceiverOrderBook])"
    by (simp add: start_streaming_data_file example_steps run outer_except_HTTPException
        string_of_int_500) (simp add: example_fs_def)
  have "stripped (readlines (line_102 @ [LF])) = [line_102]"
    by (simp add: stripped_readlines_line stripped_nonblank line_facts)
  then have read: "get_order_book example_loads
      \<lparr>data_file = True, output_file = Some (Text (line_102 @ [LF])), unlink_error = None\<rparr>
      = Inr \<lparr> status = ''success'', total_records = 1, data = [record_102] \<rparr>"
    by (simp add: get_order_book_Text example_loads_facts)
  have after: "files_after_run ?w (example_fs\<lparr>output_file := None\<rparr>)
      [Unlinked, Requested PostSenderStartStreaming, Requested PostReceiverStartProcessing,
       Requested GetReceiverStats, Requested GetReceiverOrderBook]
      = \<lparr>data_file = True, output_file = Some (Text (line_102 @ [LF])), unlink_error = None\<rparr>"
    by (simp add: files_after_run_def example_fs_def)
  have stuck: "start_streaming example_loads example_world
        (example_fs\<lparr>unlink_error := Some (OtherException ''Permission denied'')\<rparr>)
     = (Inl (HTTPException 500 ''Error: Permission denied''),
        example_fs\<lparr>unlink_error := Some (OtherException ''Permission denied'')\<rparr>, [])"
    by (simp add: start_streaming_def remove_output_def example_fs_def outer_except_def)
  show ?thesis
    by (simp only: out after read stuck fst_conv snd_conv)
qed

text \<open>
  Claim C10, amended. When the data file exists and removing the old output file does not
  raise, the handler removes an existing output file before its first request, which goes
  to the sender, and removes nothing later; its own operations leave no output file. After
  the run the output file is what the receiver wrote if the receiver was asked to process,
  and absent otherwise; it is never the file of an earlier run. So after a run that fails
  at the sender the file is absent and \<^verbatim>\<open>GET /api/order-book\<close> answers 404, whatever an
  earlier run had left.
\<close>

theorem old_output_removed_first:
  "data_file f \<Longrightarrow> output_file f = None \<or> unlink_error f = None \<Longrightarrow>
     (\<exists>rest. snd (snd (start_streaming loads w f)) =
        (if output_file f \<noteq> None then [Unlinked] else [])
          @ Requested PostSenderStartStreaming # rest
        \<and> Unlinked \<notin> set rest)
     \<and> output_file (fst (snd (start_streaming loads w f))) = None
     \<and> output_file (files_after_run w (fst (snd (start_streaming loads w f)))
          (snd (snd (start_streaming loads w f))))
       = (if Requested PostReceiverStartProcessing \<in> set (snd (snd (start_streaming loads w f)))
          then receiver_writes w else None)
     \<and> (\<forall>e. sender_step (post_sender_start_streaming w) = Inl e \<longrightarrow>
          (\<exists>detail. fst (start_streaming loads w f) = Inl (HTTPException 500 detail))
          \<and> get_order_book loads
              (files_after_run w (fst (snd (start_streaming loads w f)))
                 (snd (snd (start_streaming loads w f))))
            = Inl (HTTPException 404 ''No order book data available''))"
proof -
  assume d: "data_file f" and u: "output_file f = None \<or> unlink_error f = None"
  note ss = start_streaming_data_file [OF d u]
  have "\<exists>rest. map Requested (snd (run_pipeline loads w))
      = Requested PostSenderStartStreaming # rest \<and> Unlinked \<notin> set rest"
    by (auto simp add: run_pipeline_def Let_def split: sum.splits)
  then have first: "\<exists>rest. snd (snd (start_streaming loads w f)) =
        (if output_file f \<noteq> None then [Unlinked] else [])
          @ Requested PostSenderStartStreaming # rest
        \<and> Unlinked \<notin> set rest"
    by (auto simp add: ss)
  have gone: "output_file (fst (snd (start_streaming loads w f))) = None"
    by (simp add: ss)
  have after: "output_file (files_after_run w (fst (snd (start_streaming loads w f)))
          (snd (snd (start_streaming loads w f))))
       = (if Requested PostReceiverStartProcessing \<in> set (snd (snd (start_streaming loads w f)))
          then receiver_writes w else None)"
    using gone by (simp add: files_after_run_def split: option.splits)
  have producer: "(\<exists>detail. fst (start_streaming loads w f) = Inl (HTTPException 500 detail))
      \<and> get_order_book loads
          (files_after_run w (fst (snd (start_streaming loads w f)))
             (snd (snd (start_streaming loads w f))))
        = Inl (HTTPException 404 ''No order book data available'')"
    if "sender_step (post_sender_start_streaming w) = Inl e" for e
  proof -
    from that have run: "run_pipeline loads w = (Inl e, [PostSenderStartStreaming])"
      by (simp add: run_pipeline_def)
    then have "\<exists>detail. fst (start_streaming loads w f) = Inl (HTTPException 500 detail)"
      by (cases e) (simp_all add: ss outer_except_def)
    moreover have "Requested PostReceiverStartProcessing
        \<notin> set (snd (snd (start_streaming loads w f)))"
      by (simp add: ss run)
    then have "output_file (files_after_run w (fst (snd (start_streaming loads w f)))
          (snd (snd (start_streaming loads w f)))) = None"
      using after by simp
    then have "get_order_book loads
          (files_after_run w (fst (snd (start_streaming loads w f)))
             (snd (snd (start_streaming loads w f))))
        = Inl (HTTPException 404 ''No order book data available'')"
      by (simp add: get_order_book_def)
    ultimately show ?thesis by blast
  qed
  from first gone after producer show ?thesis by blast
qed

theorem old_output_removed_first_witness:
  "snd (snd (start_streaming example_loads
        (example_world\<lparr>post_sender_start_streaming := Inr unavailable\<rparr>) example_fs))
     = [Unlinked, Requested PostSenderStartStreaming]
   \<and> get_order_book example_loads example_fs
     = Inr \<lparr> status = ''success'', total_records = 1, data = [record_101] \<rparr>
   \<and> get_order_book example_loads
       (files_after_run (example_world\<lparr>post_sender_start_streaming := Inr unavailable\<rparr>)
          (fst (snd (start_streaming example_loads
             (example_world\<lparr>post_sender_start_streaming := Inr unavailable\<rparr>) example_fs)))
          (snd (snd (start_streaming example_loads
             (example_world\<lparr>post_sender_start_streaming := Inr unavailable\<rparr>) example_fs))))
     = Inl (HTTPException 404 ''No order book data available'')"
proof -
  let ?w = "example_world\<lparr>post_sender_start_streaming := Inr unavailable\<rparr>"
  have s: "sender_step (post_sender_start_streaming ?w)
      = Inl (HTTPException 500 ''Sender microservice failed: Service Unavailable'')"
    by (simp add: sender_step_def unavailable_def)
  then have "run_pipeline example_loads ?w
      = (Inl (HTTPException 500 ''Sender microservice failed: Service Unavailable''),
         [PostSenderStartStreaming])"
    by (simp only: run_pipeline_def sum.case)
  then have ev: "snd (snd (start_streaming example_loads ?w example_fs))
      = [Unlinked, Requested PostSenderStartStreaming]"
    by (simp add: start_streaming_data_file example_steps) (simp add: example_fs_def)
  have "stripped (readlines (line_101 @ [LF])) = [line_101]"
    by (simp add: stripped_readlines_line stripped_nonblank line_facts)
  then have before: "get_order_book example_loads example_fs
      = Inr \<lparr> status = ''success'', total_records = 1, data = [record_101] \<rparr>"
    by (simp add: example_fs_def get_order_book_Text example_loads_facts)
  show ?thesis
    using old_output_removed_first
      [OF example_steps(4) disjI2 [OF example_steps(5)], of example_loads ?w] s before ev
    by simp
qed

end
